theory Spec2Isabelle
  imports Main "HOL-Library.Word"
begin

unbundle bit_operations_syntax

section \<open>Display interface (DisplayItf.hpp)\<close>

subsection \<open>Exception\<close>




section \<open>DRM detector (drm/DrmDetector.cpp)\<close>

subsection \<open>The C library: \<open>atoi\<close>\<close>

text \<open>
  \<open>atoi(s)\<close> is \<open>(int) strtol(s, NULL, 10)\<close> (glibc, 64-bit \<open>long\<close>, 32-bit \<open>int\<close>):
  leading white space is skipped, one optional sign is read, then decimal digits up to
  the first other character; \<open>strtol\<close> saturates at the bounds of \<open>long\<close>, and the
  conversion to \<open>int\<close> keeps the low 32 bits.
\<close>

definition isspace :: "char \<Rightarrow> bool" where
  "isspace c \<longleftrightarrow> c \<in> set [CHR '' '', CHR 0x09, CHR 0x0A, CHR 0x0B, CHR 0x0C, CHR 0x0D]"

definition isdigit :: "char \<Rightarrow> bool" where
  "isdigit c \<longleftrightarrow> (48::nat) \<le> of_char c \<and> of_char c \<le> (57::nat)"

fun strtol_digits :: "int \<Rightarrow> string \<Rightarrow> int" where
  "strtol_digits acc [] = acc"
| "strtol_digits acc (c # cs) =
     (if isdigit c then strtol_digits (acc * 10 + (int (of_char c) - 48)) cs else acc)"

definition strtol :: "string \<Rightarrow> int" where
  "strtol nptr =
     (let t = dropWhile isspace nptr;
          v = (case t of
                 [] \<Rightarrow> 0
               | c # r \<Rightarrow>
                   if c = CHR ''-'' then - strtol_digits 0 r
                   else if c = CHR ''+'' then strtol_digits 0 r
                   else strtol_digits 0 t)
      in max (- (2 ^ 63)) (min (2 ^ 63 - 1) v))"

definition atoi :: "string \<Rightarrow> int" where
  "atoi nptr = sint (word_of_int (strtol nptr) :: 32 word)"

subsection \<open>The host: udev, the file-descriptor table, libdrm\<close>

text \<open>\<open>open\<close> flags of \<open>fcntl.h\<close> (Linux, generic values, octal 2, 4000 and 2000000).\<close>

definition O_RDWR :: "32 word" where "O_RDWR = 0x2"
definition O_NONBLOCK :: "32 word" where "O_NONBLOCK = 0x800"
definition O_CLOEXEC :: "32 word" where "O_CLOEXEC = 0x80000"

text \<open>
  A \<open>udev_device\<close> as the detector reads it: \<open>udev_device_get_devnode\<close> and
  \<open>udev_device_get_sysnum\<close> return a C string or NULL (\<open>None\<close>).
\<close>

record udev_device =
  udev_device_get_devnode :: "string option"
  udev_device_get_sysnum :: "string option"

text \<open>The three counters of \<open>drmModeRes\<close> the detector reads (C \<open>int\<close>).\<close>

record drmModeRes =
  count_crtcs :: int
  count_connectors :: int
  count_encoders :: int

text \<open>
  What the host answers to the detector's calls. A pointer result is \<open>True\<close> or \<open>Some\<close>
  when non-NULL; the \<open>udev_enumerate_*\<close> calls return 0 on success. An entry of the
  enumerated list is its name as \<open>udev_list_entry_get_name\<close> returns it (NULL is \<open>None\<close>).
  \<open>open_succeeds\<close> says whether \<open>open\<close> of a path with given flags succeeds, and
  \<open>device_resources\<close> what \<open>drmModeGetResources\<close> returns on a descriptor of that path.
\<close>

record host =
  udev_new :: bool
  udev_enumerate_new :: bool
  udev_enumerate_add_match_subsystem :: "string \<Rightarrow> int"
  udev_enumerate_add_match_sysname :: "string \<Rightarrow> int"
  udev_enumerate_scan_devices :: int
  udev_enumerate_get_list_entry :: "string option list"
  udev_device_new_from_syspath :: "string \<Rightarrow> udev_device option"
  open_succeeds :: "string \<Rightarrow> 32 word \<Rightarrow> bool"
  device_resources :: "string \<Rightarrow> drmModeRes option"

text \<open>
  The state of the process: the table of open file descriptors (descriptor and the path
  it was opened on), and the record of the calls made to \<open>open\<close> (path and flags).
\<close>

record os_state =
  fd_table :: "(int \<times> string) list"
  open_calls :: "(string \<times> 32 word) list"

text \<open>POSIX: \<open>open\<close> returns the lowest-numbered descriptor not currently open.\<close>

definition lowest_free_fd :: "(int \<times> string) list \<Rightarrow> int" where
  "lowest_free_fd tbl =
     (case find (\<lambda>fd. fd \<notin> fst ` set tbl) (map int [0..<Suc (length tbl)]) of
        Some fd \<Rightarrow> fd
      | None \<Rightarrow> int (length tbl))"

definition open_node :: "host \<Rightarrow> string \<Rightarrow> 32 word \<Rightarrow> os_state \<Rightarrow> int \<times> os_state" where
  "open_node h pathname flags s =
     (let s' = s\<lparr>open_calls := open_calls s @ [(pathname, flags)]\<rparr>
      in if open_succeeds h pathname flags
         then (let fd = lowest_free_fd (fd_table s)
               in (fd, s'\<lparr>fd_table := (fd, pathname) # fd_table s\<rparr>))
         else (- 1, s'))"

text \<open>\<open>drmClose(fd)\<close> is \<open>close(fd)\<close>.\<close>

definition drmClose :: "int \<Rightarrow> os_state \<Rightarrow> os_state" where
  "drmClose fd s = s\<lparr>fd_table := filter (\<lambda>(k, p). k \<noteq> fd) (fd_table s)\<rparr>"

definition drmModeGetResources :: "host \<Rightarrow> int \<Rightarrow> os_state \<Rightarrow> drmModeRes option" where
  "drmModeGetResources h fd s =
     (case map_of (fd_table s) fd of
        None \<Rightarrow> None
      | Some pathname \<Rightarrow> device_resources h pathname)"

subsection \<open>\<open>drmFdGuard\<close>\<close>

datatype drmFdGuard = drmFdGuard (mFd: int)

text \<open>\<open>~drmFdGuard() { if (mFd > 0) drmClose(mFd); }\<close>\<close>

definition drmFdGuard_dtor :: "drmFdGuard \<Rightarrow> os_state \<Rightarrow> os_state" where
  "drmFdGuard_dtor g s = (if mFd g > 0 then drmClose (mFd g) s else s)"

subsection \<open>\<open>isDrmDevice\<close>\<close>

text \<open>
  Every \<open>return\<close> after the guard's construction runs its destructor. Logging and the
  release of the resource description (\<open>drmModeFreeResources\<close>) are not modelled.
\<close>

definition isDrmDevice :: "host \<Rightarrow> udev_device \<Rightarrow> os_state \<Rightarrow> bool \<times> os_state" where
  "isDrmDevice h device s =
     (case udev_device_get_devnode device of
        None \<Rightarrow> (False, s)
      | Some filename \<Rightarrow>
          (case udev_device_get_sysnum device of
             None \<Rightarrow> (False, s)
           | Some sysnum \<Rightarrow>
               if atoi sysnum < 0 then (False, s)
               else
                 (case open_node h filename (O_RDWR OR O_CLOEXEC) s of
                    (r, s1) \<Rightarrow>
                      let fd = drmFdGuard r
                      in if mFd fd < 0 then (False, drmFdGuard_dtor fd s1)
                         else
                           (case drmModeGetResources h (mFd fd) s1 of
                              None \<Rightarrow> (False, drmFdGuard_dtor fd s1)
                            | Some res \<Rightarrow>
                                if count_crtcs res \<le> 0 \<or> count_connectors res \<le> 0 \<or>
                                   count_encoders res \<le> 0
                                then (False, drmFdGuard_dtor fd s1)
                                else (True, drmFdGuard_dtor fd s1)))))"

subsection \<open>\<open>detectDrmDevice\<close>\<close>

text \<open>
  Constructing the returned \<open>std::string\<close> from a \<open>const char*\<close>: a NULL pointer makes
  the constructor throw \<open>std::logic_error\<close> (libstdc++).
\<close>

datatype cxx_exception = Std_logic_error

definition std_string :: "string option \<Rightarrow> cxx_exception + string" where
  "std_string p = (case p of None \<Rightarrow> Inl Std_logic_error | Some cs \<Rightarrow> Inr cs)"

text \<open>
  The \<open>udev_list_entry_foreach\<close> loop. \<open>Some r\<close> is a \<open>return\<close> from inside the loop (or
  an exception leaving it), \<open>None\<close> the end of the list.
\<close>

fun udev_list_entry_foreach ::
  "host \<Rightarrow> string option list \<Rightarrow> os_state \<Rightarrow> (cxx_exception + string) option \<times> os_state" where
  "udev_list_entry_foreach h [] s = (None, s)"
| "udev_list_entry_foreach h (entry # rest) s =
     (case entry of
        None \<Rightarrow> udev_list_entry_foreach h rest s
      | Some path \<Rightarrow>
          (case udev_device_new_from_syspath h path of
             None \<Rightarrow> udev_list_entry_foreach h rest s
           | Some device \<Rightarrow>
               (case isDrmDevice h device s of
                  (ok, s1) \<Rightarrow>
                    if ok then (Some (std_string (udev_device_get_devnode device)), s1)
                    else udev_list_entry_foreach h rest s1)))"

definition detectDrmDevice :: "host \<Rightarrow> os_state \<Rightarrow> (cxx_exception + string) \<times> os_state" where
  "detectDrmDevice h s =
     (if \<not> udev_new h then (Inr '''', s)
      else if \<not> udev_enumerate_new h then (Inr '''', s)
      else if udev_enumerate_add_match_subsystem h ''drm'' \<noteq> 0 then (Inr '''', s)
      else if udev_enumerate_add_match_sysname h ''card[0-9]*'' \<noteq> 0 then (Inr '''', s)
      else if udev_enumerate_scan_devices h \<noteq> 0 then (Inr '''', s)
      else
        (case udev_list_entry_foreach h (udev_enumerate_get_list_entry h) s of
           (Some r, s1) \<Rightarrow> (r, s1)
         | (None, s1) \<Rightarrow> (Inr '''', s1)))"

section \<open>Properties of the detector\<close>

subsection \<open>Vocabulary of the properties\<close>

text \<open>A resource description reports at least one controller, one output, one encoder.\<close>

definition at_least_one_of_each :: "drmModeRes \<Rightarrow> bool" where
  "at_least_one_of_each res \<longleftrightarrow>
     1 \<le> count_crtcs res \<and> 1 \<le> count_connectors res \<and> 1 \<le> count_encoders res"

text \<open>A device passes validation: it has a device-node path and a non-negative ordinal.\<close>

definition valid_candidate :: "udev_device \<Rightarrow> bool" where
  "valid_candidate d =
     (case udev_device_get_devnode d of
        None \<Rightarrow> False
      | Some f \<Rightarrow> (case udev_device_get_sysnum d of None \<Rightarrow> False | Some n \<Rightarrow> 0 \<le> atoi n))"

definition device_devnode :: "udev_device \<Rightarrow> string" where
  "device_devnode d = (case udev_device_get_devnode d of None \<Rightarrow> '''' | Some f \<Rightarrow> f)"

text \<open>The device node can be opened with the flags the detector passes.\<close>

definition can_open :: "host \<Rightarrow> udev_device \<Rightarrow> bool" where
  "can_open h d = open_succeeds h (device_devnode d) (O_RDWR OR O_CLOEXEC)"

text \<open>
  The resource description queried for a device: there is one when the device passes
  validation, its node can be opened and the query on it returns a description.
\<close>

definition queried_resources :: "host \<Rightarrow> udev_device \<Rightarrow> drmModeRes option" where
  "queried_resources h d =
     (if valid_candidate d \<and> can_open h d then device_resources h (device_devnode d) else None)"

text \<open>The device object of an enumerated entry, when it has a name and the object can be built.\<close>

definition entry_device :: "host \<Rightarrow> string option \<Rightarrow> udev_device option" where
  "entry_device h entry =
     (case entry of None \<Rightarrow> None | Some path \<Rightarrow> udev_device_new_from_syspath h path)"

text \<open>
  An enumerated entry qualifies: its queried resource description reports at least one
  controller, one output and one encoder.
\<close>

definition qualifies :: "host \<Rightarrow> string option \<Rightarrow> bool" where
  "qualifies h entry =
     (case entry_device h entry of
        None \<Rightarrow> False
      | Some d \<Rightarrow>
          (case queried_resources h d of None \<Rightarrow> False | Some res \<Rightarrow> at_least_one_of_each res))"

definition entry_devnode :: "host \<Rightarrow> string option \<Rightarrow> string" where
  "entry_devnode h entry = (case entry_device h entry of None \<Rightarrow> '''' | Some d \<Rightarrow> device_devnode d)"

text \<open>Every step before the loop succeeds: context, enumerator, both matches, the scan.\<close>

definition enumeration_ok :: "host \<Rightarrow> bool" where
  "enumeration_ok h \<longleftrightarrow>
     udev_new h \<and> udev_enumerate_new h \<and>
     udev_enumerate_add_match_subsystem h ''drm'' = 0 \<and>
     udev_enumerate_add_match_sysname h ''card[0-9]*'' = 0 \<and>
     udev_enumerate_scan_devices h = 0"

text \<open>An entry whose device passes validation and whose node cannot be opened.\<close>

definition unopenable :: "host \<Rightarrow> string option \<Rightarrow> bool" where
  "unopenable h entry =
     (case entry_device h entry of
        None \<Rightarrow> False
      | Some d \<Rightarrow> valid_candidate d \<and> \<not> can_open h d)"

text \<open>An entry whose name is NULL or whose device object cannot be built.\<close>

definition silently_skipped :: "host \<Rightarrow> string option \<Rightarrow> bool" where
  "silently_skipped h entry =
     (case entry of None \<Rightarrow> True | Some path \<Rightarrow> udev_device_new_from_syspath h path = None)"

subsection \<open>Example hosts\<close>

definition card0 :: udev_device where
  "card0 = \<lparr>udev_device_get_devnode = Some ''/dev/dri/card0'', udev_device_get_sysnum = Some ''0''\<rparr>"

definition card1 :: udev_device where
  "card1 = \<lparr>udev_device_get_devnode = Some ''/dev/dri/card1'', udev_device_get_sysnum = Some ''1''\<rparr>"

text \<open>
  Four enumerated entries: one without a name, one whose device object cannot be built,
  \<open>card0\<close> whose node cannot be opened, and \<open>card1\<close> with a full display pipeline.
\<close>

definition example_host :: host where
  "example_host =
     \<lparr>udev_new = True,
      udev_enumerate_new = True,
      udev_enumerate_add_match_subsystem = (\<lambda>_. 0),
      udev_enumerate_add_match_sysname = (\<lambda>_. 0),
      udev_enumerate_scan_devices = 0,
      udev_enumerate_get_list_entry =
        [None, Some ''/sys/gone'', Some ''/sys/card0'', Some ''/sys/card1''],
      udev_device_new_from_syspath =
        (\<lambda>path. if path = ''/sys/card0'' then Some card0
                else if path = ''/sys/card1'' then Some card1 else None),
      open_succeeds = (\<lambda>pathname flags. pathname = ''/dev/dri/card1''),
      device_resources =
        (\<lambda>pathname. if pathname = ''/dev/dri/card1''
                    then Some \<lparr>count_crtcs = 2, count_connectors = 1, count_encoders = 1\<rparr>
                    else None)\<rparr>"

text \<open>The same host with render-only nodes: every resource description reports nothing.\<close>

definition headless_host :: host where
  "headless_host = example_host\<lparr>device_resources :=
     (\<lambda>pathname. Some \<lparr>count_crtcs = 0, count_connectors = 0, count_encoders = 0\<rparr>)\<rparr>"

text \<open>A process with its three standard descriptors open, and one started with none.\<close>

definition stdio_open :: os_state where
  "stdio_open =
     \<lparr>fd_table = [(0, ''/dev/null''), (1, ''/dev/null''), (2, ''/dev/null'')], open_calls = []\<rparr>"

definition stdin_closed :: os_state where
  "stdin_closed = \<lparr>fd_table = [], open_calls = []\<rparr>"

text \<open>Devices that fail validation.\<close>

definition no_devnode :: udev_device where
  "no_devnode = \<lparr>udev_device_get_devnode = None, udev_device_get_sysnum = Some ''0''\<rparr>"

definition no_sysnum :: udev_device where
  "no_sysnum = \<lparr>udev_device_get_devnode = Some ''/dev/dri/card0'', udev_device_get_sysnum = None\<rparr>"

definition negative_sysnum :: udev_device where
  "negative_sysnum =
     \<lparr>udev_device_get_devnode = Some ''/dev/dri/card0'', udev_device_get_sysnum = Some ''-1''\<rparr>"

subsection \<open>Evaluation rules\<close>

lemmas host_defs = example_host_def card0_def card1_def stdio_open_def

lemmas probe_defs = qualifies_def entry_device_def queried_resources_def valid_candidate_def
  can_open_def device_devnode_def at_least_one_of_each_def entry_devnode_def

lemmas run_defs = detectDrmDevice_def isDrmDevice_def open_node_def lowest_free_fd_def
  drmModeGetResources_def drmFdGuard_dtor_def drmClose_def std_string_def

lemma atoi_0: "atoi ''0'' = 0"
  by (simp add: atoi_def strtol_def isspace_def isdigit_def)

lemma atoi_1: "atoi ''1'' = 1"
  by (simp add: atoi_def strtol_def isspace_def isdigit_def)

lemma atoi_neg1: "atoi ''-1'' = - 1"
  by (simp add: atoi_def strtol_def isspace_def isdigit_def)

subsection \<open>The probe and the loop\<close>

lemma find_SomeD: "find P xs = Some x \<Longrightarrow> P x \<and> x \<in> set xs"
  by (induction xs) (auto split: if_splits)

lemma lowest_free_fd_nonneg: "0 \<le> lowest_free_fd tbl"
proof (cases "find (\<lambda>fd. fd \<notin> fst ` set tbl) (map int [0..<Suc (length tbl)])")
  case None
  then show ?thesis by (simp add: lowest_free_fd_def)
next
  case (Some fd)
  from find_SomeD [OF Some] have "fd \<in> set (map int [0..<Suc (length tbl)])" by blast
  then have "0 \<le> fd" by (auto simp del: upt_Suc)
  with Some show ?thesis by (simp add: lowest_free_fd_def)
qed

lemma isDrmDevice_invalid: "\<not> valid_candidate d \<Longrightarrow> isDrmDevice h d s = (False, s)"
  by (auto simp: isDrmDevice_def valid_candidate_def split: option.splits)

lemma isDrmDevice_open_fails:
  "valid_candidate d \<Longrightarrow> \<not> can_open h d \<Longrightarrow>
   isDrmDevice h d s =
     (False, s\<lparr>open_calls := open_calls s @ [(device_devnode d, O_RDWR OR O_CLOEXEC)]\<rparr>)"
  by (auto simp: isDrmDevice_def valid_candidate_def can_open_def device_devnode_def
      open_node_def drmFdGuard_dtor_def split: option.splits)

lemma isDrmDevice_opened:
  "valid_candidate d \<Longrightarrow> can_open h d \<Longrightarrow>
   isDrmDevice h d s =
     (case device_resources h (device_devnode d) of
        None \<Rightarrow> False
      | Some res \<Rightarrow> at_least_one_of_each res,
      drmFdGuard_dtor (drmFdGuard (lowest_free_fd (fd_table s)))
        (s\<lparr>open_calls := open_calls s @ [(device_devnode d, O_RDWR OR O_CLOEXEC)],
           fd_table := (lowest_free_fd (fd_table s), device_devnode d) # fd_table s\<rparr>))"
  using lowest_free_fd_nonneg [of "fd_table s"]
  by (auto simp: isDrmDevice_def valid_candidate_def can_open_def device_devnode_def
      open_node_def drmModeGetResources_def at_least_one_of_each_def Let_def
      split: option.splits)

lemma isDrmDevice_accepts:
  "fst (isDrmDevice h d s) =
     (case queried_resources h d of None \<Rightarrow> False | Some res \<Rightarrow> at_least_one_of_each res)"
proof (cases "valid_candidate d")
  case False
  then show ?thesis by (simp add: isDrmDevice_invalid queried_resources_def)
next
  case True
  then show ?thesis
    by (cases "can_open h d")
      (simp_all add: isDrmDevice_opened isDrmDevice_open_fails queried_resources_def)
qed

lemma isDrmDevice_accepts_devnode:
  "fst (isDrmDevice h d s) \<Longrightarrow> udev_device_get_devnode d = Some (device_devnode d)"
  by (auto simp: isDrmDevice_accepts queried_resources_def valid_candidate_def device_devnode_def
      split: option.splits if_splits)

lemma foreach_result:
  "fst (udev_list_entry_foreach h es s) =
     (case find (qualifies h) es of
        None \<Rightarrow> None
      | Some e \<Rightarrow> Some (Inr (entry_devnode h e)))"
proof (induction es arbitrary: s)
  case Nil
  show ?case by simp
next
  case (Cons e es)
  show ?case
  proof (cases "entry_device h e")
    case None
    then show ?thesis
      using Cons.IH [of s]
      by (auto simp: entry_device_def qualifies_def split: option.splits)
  next
    case (Some d)
    then obtain path where e: "e = Some path" and d: "udev_device_new_from_syspath h path = Some d"
      by (auto simp: entry_device_def split: option.splits)
    obtain ok s1 where r: "isDrmDevice h d s = (ok, s1)" by (cases "isDrmDevice h d s")
    have ok: "ok = qualifies h e"
      using isDrmDevice_accepts [of h d s] r Some by (simp add: qualifies_def)
    show ?thesis
    proof (cases ok)
      case True
      with r have "udev_device_get_devnode d = Some (device_devnode d)"
        using isDrmDevice_accepts_devnode [of h d s] by simp
      with True ok r e d Some show ?thesis
        by (simp add: std_string_def entry_devnode_def)
    next
      case False
      with ok r e d Cons.IH [of s1] show ?thesis by simp
    qed
  qed
qed

lemma detect_result:
  "fst (detectDrmDevice h s) =
     Inr (if enumeration_ok h
          then (case find (qualifies h) (udev_enumerate_get_list_entry h) of
                  None \<Rightarrow> ''''
                | Some e \<Rightarrow> entry_devnode h e)
          else '''')"
proof (cases "enumeration_ok h")
  case False
  then show ?thesis by (auto simp: detectDrmDevice_def enumeration_ok_def)
next
  case True
  obtain r s1 where l: "udev_list_entry_foreach h (udev_enumerate_get_list_entry h) s = (r, s1)"
    by (cases "udev_list_entry_foreach h (udev_enumerate_get_list_entry h) s")
  with foreach_result [of h "udev_enumerate_get_list_entry h" s]
  have "r = (case find (qualifies h) (udev_enumerate_get_list_entry h) of
        None \<Rightarrow> None
      | Some e \<Rightarrow> Some (Inr (entry_devnode h e)))" by simp
  with True l show ?thesis
    by (auto simp: detectDrmDevice_def enumeration_ok_def split: option.splits)
qed

lemma lowest_free_fd_fresh: "lowest_free_fd tbl \<notin> fst ` set tbl"
proof (cases "find (\<lambda>fd. fd \<notin> fst ` set tbl) (map int [0..<Suc (length tbl)])")
  case (Some fd)
  from find_SomeD [OF Some] have "fd \<notin> fst ` set tbl" by blast
  with Some show ?thesis by (simp add: lowest_free_fd_def)
next
  case None
  then have sub: "int ` {0..<Suc (length tbl)} \<subseteq> fst ` set tbl"
    by (auto simp: find_None_iff simp del: upt_Suc)
  have "card (int ` {0..<Suc (length tbl)}) = Suc (length tbl)"
    by (simp add: card_image)
  moreover have "card (fst ` set tbl) \<le> length tbl"
    by (metis card_image_le card_length le_trans List.finite_set)
  moreover have "card (int ` {0..<Suc (length tbl)}) \<le> card (fst ` set tbl)"
    using sub by (intro card_mono) auto
  ultimately show ?thesis by simp
qed

lemma close_unopened:
  assumes "fd \<notin> fst ` set tbl"
  shows "filter (\<lambda>(k, p). k \<noteq> fd) tbl = tbl"
  using assms by (intro filter_True) force

lemma isDrmDevice_fd_table:
  "fd_table (snd (isDrmDevice h d s)) =
     (if valid_candidate d \<and> can_open h d \<and> lowest_free_fd (fd_table s) = 0
      then (0, device_devnode d) # fd_table s else fd_table s)"
proof (cases "valid_candidate d")
  case False
  then show ?thesis by (simp add: isDrmDevice_invalid)
next
  case True
  show ?thesis
  proof (cases "can_open h d")
    case False
    with True show ?thesis by (simp add: isDrmDevice_open_fails)
  next
    case op: True
    show ?thesis
      using True op lowest_free_fd_nonneg [of "fd_table s"] lowest_free_fd_fresh [of "fd_table s"]
      by (simp add: isDrmDevice_opened drmFdGuard_dtor_def drmClose_def close_unopened)
  qed
qed

lemma lowest_free_fd_positive:
  "0 \<in> fst ` set tbl \<Longrightarrow> 0 < lowest_free_fd tbl"
  using lowest_free_fd_nonneg [of tbl] lowest_free_fd_fresh [of tbl]
  by (cases "lowest_free_fd tbl = 0") auto

lemma isDrmDevice_closes_positive_fd:
  "0 \<in> fst ` set (fd_table s) \<Longrightarrow> fd_table (snd (isDrmDevice h d s)) = fd_table s"
  using lowest_free_fd_positive [of "fd_table s"] by (simp add: isDrmDevice_fd_table)

lemma foreach_closes_positive_fd:
  "0 \<in> fst ` set (fd_table s) \<Longrightarrow>
   fd_table (snd (udev_list_entry_foreach h es s)) = fd_table s"
proof (induction es arbitrary: s)
  case Nil
  show ?case by simp
next
  case (Cons e es)
  show ?case
  proof (cases "entry_device h e")
    case None
    with Cons show ?thesis by (auto simp: entry_device_def split: option.splits)
  next
    case (Some d)
    then obtain path where e: "e = Some path" and d: "udev_device_new_from_syspath h path = Some d"
      by (auto simp: entry_device_def split: option.splits)
    obtain ok s1 where r: "isDrmDevice h d s = (ok, s1)" by (cases "isDrmDevice h d s")
    with isDrmDevice_closes_positive_fd [OF Cons.prems, of h d]
    have s1: "fd_table s1 = fd_table s" by simp
    with Cons.prems Cons.IH [of s1] have "fd_table (snd (udev_list_entry_foreach h es s1)) = fd_table s"
      by simp
    with e d r s1 show ?thesis by simp
  qed
qed

lemma detect_closes_positive_fd:
  "0 \<in> fst ` set (fd_table s) \<Longrightarrow> fd_table (snd (detectDrmDevice h s)) = fd_table s"
  using foreach_closes_positive_fd [of s h "udev_enumerate_get_list_entry h"]
  by (auto simp: detectDrmDevice_def split: prod.splits option.splits)

lemma find_first:
  "\<forall>x\<in>set pre. \<not> P x \<Longrightarrow> P e \<Longrightarrow> find P (pre @ e # post) = Some e"
  by (induction pre) auto

lemma foreach_skip:
  "silently_skipped h e \<Longrightarrow> udev_list_entry_foreach h (e # rest) s = udev_list_entry_foreach h rest s"
  by (auto simp: silently_skipped_def split: option.splits)

lemma foreach_filter:
  "udev_list_entry_foreach h es s =
   udev_list_entry_foreach h (filter (\<lambda>e. \<not> silently_skipped h e) es) s"
proof (induction es arbitrary: s)
  case Nil show ?case by simp
next
  case (Cons e es)
  show ?case
  proof (cases "silently_skipped h e")
    case True
    with Cons [of s] foreach_skip [OF True, of es s] show ?thesis
      by (simp del: udev_list_entry_foreach.simps)
  next
    case False
    then obtain path d where e: "e = Some path" and d: "udev_device_new_from_syspath h path = Some d"
      by (auto simp: silently_skipped_def split: option.splits)
    with False Cons show ?thesis by (simp split: prod.splits)
  qed
qed

lemma open_node_entries_irrelevant:
  "open_node (h\<lparr>udev_enumerate_get_list_entry := es\<rparr>) = open_node h"
  by (intro ext) (simp add: open_node_def)

lemma drmModeGetResources_entries_irrelevant:
  "drmModeGetResources (h\<lparr>udev_enumerate_get_list_entry := es\<rparr>) = drmModeGetResources h"
  by (intro ext) (simp add: drmModeGetResources_def split: option.splits)

lemma isDrmDevice_entries_irrelevant:
  "isDrmDevice (h\<lparr>udev_enumerate_get_list_entry := es\<rparr>) d s = isDrmDevice h d s"
  unfolding isDrmDevice_def open_node_entries_irrelevant drmModeGetResources_entries_irrelevant
  by (rule refl)

lemma foreach_entries_irrelevant:
  "udev_list_entry_foreach (h\<lparr>udev_enumerate_get_list_entry := es'\<rparr>) es s =
   udev_list_entry_foreach h es s"
  by (induction es arbitrary: s)
    (simp_all add: isDrmDevice_entries_irrelevant split: option.splits prod.splits)

lemma detect_filter:
  "detectDrmDevice h s =
   detectDrmDevice (h\<lparr>udev_enumerate_get_list_entry :=
      filter (\<lambda>e. \<not> silently_skipped h e) (udev_enumerate_get_list_entry h)\<rparr>) s"
  using foreach_filter [of h "udev_enumerate_get_list_entry h" s]
  by (simp add: detectDrmDevice_def foreach_entries_irrelevant)

lemma foreach_unopenable:
  assumes "unopenable h e"
  shows "udev_list_entry_foreach h (e # rest) s =
         udev_list_entry_foreach h rest
           (s\<lparr>open_calls := open_calls s @ [(entry_devnode h e, O_RDWR OR O_CLOEXEC)]\<rparr>)"
proof -
  from assms obtain path d where e: "e = Some path"
    and d: "udev_device_new_from_syspath h path = Some d"
    and v: "valid_candidate d" and c: "\<not> can_open h d"
    by (auto simp: unopenable_def entry_device_def split: option.splits)
  from e d have "entry_devnode h e = device_devnode d"
    by (simp add: entry_devnode_def entry_device_def)
  with e d show ?thesis by (simp add: isDrmDevice_open_fails [OF v c])
qed

lemma isDrmDevice_open_calls:
  "open_calls (snd (isDrmDevice h d s)) =
     (if valid_candidate d
      then open_calls s @ [(device_devnode d, O_RDWR OR O_CLOEXEC)]
      else open_calls s)"
proof (cases "valid_candidate d")
  case False
  then show ?thesis by (simp add: isDrmDevice_invalid)
next
  case True
  then show ?thesis
    by (cases "can_open h d")
      (simp_all add: isDrmDevice_opened isDrmDevice_open_fails drmFdGuard_dtor_def drmClose_def)
qed

lemma valid_candidate_iff:
  "valid_candidate d \<longleftrightarrow>
     (\<exists>f n. udev_device_get_devnode d = Some f \<and> udev_device_get_sysnum d = Some n \<and> 0 \<le> atoi n)"
  by (auto simp: valid_candidate_def split: option.splits)

section \<open>The claims\<close>

subsection \<open>C1: the first qualifying candidate is returned\<close>

text \<open>
  C1. When the udev set-up succeeds, \<open>detectDrmDevice\<close> returns the device-node path of
  the first enumerated entry whose queried resource description reports at least one
  controller, one output and one encoder: every entry before it fails to qualify. When
  no enumerated entry qualifies, it returns the empty string.
\<close>

theorem detectDrmDevice_first_qualifying:
  assumes "enumeration_ok h"
  shows "(udev_enumerate_get_list_entry h = pre @ e # post \<and>
          (\<forall>x\<in>set pre. \<not> qualifies h x) \<and> qualifies h e \<longrightarrow>
            fst (detectDrmDevice h s) = Inr (entry_devnode h e)) \<and>
         ((\<forall>x\<in>set (udev_enumerate_get_list_entry h). \<not> qualifies h x) \<longrightarrow>
            fst (detectDrmDevice h s) = Inr '''')"
proof (intro conjI impI)
  assume "udev_enumerate_get_list_entry h = pre @ e # post \<and>
          (\<forall>x\<in>set pre. \<not> qualifies h x) \<and> qualifies h e"
  then have "find (qualifies h) (udev_enumerate_get_list_entry h) = Some e"
    by (simp add: find_first)
  with assms show "fst (detectDrmDevice h s) = Inr (entry_devnode h e)"
    by (simp add: detect_result)
next
  assume "\<forall>x\<in>set (udev_enumerate_get_list_entry h). \<not> qualifies h x"
  then have "find (qualifies h) (udev_enumerate_get_list_entry h) = None"
    by (simp add: find_None_iff)
  then show "fst (detectDrmDevice h s) = Inr ''''"
    by (simp add: detect_result)
qed

theorem detectDrmDevice_first_qualifying_witness:
  "enumeration_ok example_host \<and>
   udev_enumerate_get_list_entry example_host =
     [None, Some ''/sys/gone'', Some ''/sys/card0''] @ Some ''/sys/card1'' # [] \<and>
   \<not> qualifies example_host None \<and>
   \<not> qualifies example_host (Some ''/sys/gone'') \<and>
   \<not> qualifies example_host (Some ''/sys/card0'') \<and>
   qualifies example_host (Some ''/sys/card1'') \<and>
   fst (detectDrmDevice example_host stdio_open) = Inr ''/dev/dri/card1'' \<and>
   enumeration_ok headless_host \<and>
   fst (detectDrmDevice headless_host stdio_open) = Inr ''''"
proof -
  have ok: "enumeration_ok example_host" "enumeration_ok headless_host"
    by (simp_all add: host_defs headless_host_def enumeration_ok_def)
  have es: "udev_enumerate_get_list_entry example_host =
     [None, Some ''/sys/gone'', Some ''/sys/card0''] @ Some ''/sys/card1'' # []"
    "udev_enumerate_get_list_entry headless_host =
     [None, Some ''/sys/gone'', Some ''/sys/card0'', Some ''/sys/card1'']"
    by (simp_all add: host_defs headless_host_def)
  have q: "\<not> qualifies example_host None" "\<not> qualifies example_host (Some ''/sys/gone'')"
    "\<not> qualifies example_host (Some ''/sys/card0'')" "qualifies example_host (Some ''/sys/card1'')"
    "entry_devnode example_host (Some ''/sys/card1'') = ''/dev/dri/card1''"
    by (simp_all add: host_defs probe_defs atoi_0 atoi_1)
  have nq: "\<not> qualifies headless_host None" "\<not> qualifies headless_host (Some ''/sys/gone'')"
    "\<not> qualifies headless_host (Some ''/sys/card0'')" "\<not> qualifies headless_host (Some ''/sys/card1'')"
    by (simp_all add: host_defs headless_host_def probe_defs atoi_0 atoi_1)
  from detectDrmDevice_first_qualifying [OF ok(1),
      of "[None, Some ''/sys/gone'', Some ''/sys/card0'']" "Some ''/sys/card1''" "[]" stdio_open]
    detectDrmDevice_first_qualifying [OF ok(2), of "[]" None "[]" stdio_open]
  show ?thesis using ok es q nq by simp
qed

subsection \<open>C2: the detector never raises\<close>

text \<open>
  C2. \<open>detectDrmDevice\<close> always returns a string and never an exception. When the udev
  context or the enumerator cannot be created, when registering the subsystem or the
  sysname match fails, or when the scan fails, it returns the empty string and leaves the
  process state as it was; when no enumerated entry qualifies, it returns the empty string.
\<close>

theorem detectDrmDevice_never_raises:
  "(\<exists>path. fst (detectDrmDevice h s) = Inr path) \<and>
   (\<not> udev_new h \<or> \<not> udev_enumerate_new h \<or>
    udev_enumerate_add_match_subsystem h ''drm'' \<noteq> 0 \<or>
    udev_enumerate_add_match_sysname h ''card[0-9]*'' \<noteq> 0 \<or>
    udev_enumerate_scan_devices h \<noteq> 0 \<longrightarrow> detectDrmDevice h s = (Inr '''', s)) \<and>
   ((\<forall>e\<in>set (udev_enumerate_get_list_entry h). \<not> qualifies h e) \<longrightarrow>
      fst (detectDrmDevice h s) = Inr '''')"
proof (intro conjI impI)
  show "\<exists>path. fst (detectDrmDevice h s) = Inr path"
    by (simp add: detect_result)
next
  assume "\<not> udev_new h \<or> \<not> udev_enumerate_new h \<or>
    udev_enumerate_add_match_subsystem h ''drm'' \<noteq> 0 \<or>
    udev_enumerate_add_match_sysname h ''card[0-9]*'' \<noteq> 0 \<or>
    udev_enumerate_scan_devices h \<noteq> 0"
  then show "detectDrmDevice h s = (Inr '''', s)"
    by (auto simp: detectDrmDevice_def)
next
  assume "\<forall>e\<in>set (udev_enumerate_get_list_entry h). \<not> qualifies h e"
  then have "find (qualifies h) (udev_enumerate_get_list_entry h) = None"
    by (simp add: find_None_iff)
  then show "fst (detectDrmDevice h s) = Inr ''''"
    by (simp add: detect_result)
qed

theorem detectDrmDevice_never_raises_witness:
  "udev_enumerate_scan_devices (example_host\<lparr>udev_enumerate_scan_devices := - 1\<rparr>) \<noteq> 0 \<and>
   detectDrmDevice (example_host\<lparr>udev_enumerate_scan_devices := - 1\<rparr>) stdio_open =
     (Inr '''', stdio_open) \<and>
   \<not> qualifies headless_host None \<and>
   \<not> qualifies headless_host (Some ''/sys/gone'') \<and>
   \<not> qualifies headless_host (Some ''/sys/card0'') \<and>
   \<not> qualifies headless_host (Some ''/sys/card1'') \<and>
   fst (detectDrmDevice headless_host stdio_open) = Inr ''''"
proof -
  have es: "udev_enumerate_get_list_entry headless_host =
     [None, Some ''/sys/gone'', Some ''/sys/card0'', Some ''/sys/card1'']"
    by (simp add: host_defs headless_host_def)
  have nq: "\<not> qualifies headless_host None" "\<not> qualifies headless_host (Some ''/sys/gone'')"
    "\<not> qualifies headless_host (Some ''/sys/card0'')" "\<not> qualifies headless_host (Some ''/sys/card1'')"
    by (simp_all add: host_defs headless_host_def probe_defs atoi_0 atoi_1)
  from detectDrmDevice_never_raises [of "example_host\<lparr>udev_enumerate_scan_devices := - 1\<rparr>" stdio_open]
    detectDrmDevice_never_raises [of headless_host stdio_open]
  show ?thesis using es nq by simp
qed

subsection \<open>C3: a node that cannot be opened is skipped\<close>

text \<open>
  C3. When the loop reaches a candidate that passes validation and whose \<open>open\<close> fails,
  it goes on with the rest of the list, in the state where only that call to \<open>open\<close> was
  recorded, so the result is the result of the rest. In particular, when the entry after
  an unopenable one qualifies (and none before them does), the detector returns the path
  of the qualifying entry.
\<close>

theorem open_failure_skips_candidate:
  assumes "unopenable h e"
  shows "udev_list_entry_foreach h (e # rest) s =
           udev_list_entry_foreach h rest
             (s\<lparr>open_calls := open_calls s @ [(entry_devnode h e, O_RDWR OR O_CLOEXEC)]\<rparr>) \<and>
         fst (udev_list_entry_foreach h (e # rest) s) = fst (udev_list_entry_foreach h rest s) \<and>
         (enumeration_ok h \<and> udev_enumerate_get_list_entry h = pre @ e # q # post \<and>
          (\<forall>x\<in>set pre. \<not> qualifies h x) \<and> qualifies h q \<longrightarrow>
            fst (detectDrmDevice h s) = Inr (entry_devnode h q))"
proof (intro conjI impI)
  show "udev_list_entry_foreach h (e # rest) s =
           udev_list_entry_foreach h rest
             (s\<lparr>open_calls := open_calls s @ [(entry_devnode h e, O_RDWR OR O_CLOEXEC)]\<rparr>)"
    by (rule foreach_unopenable [OF assms])
  from assms have nq: "\<not> qualifies h e"
    by (auto simp: unopenable_def qualifies_def queried_resources_def split: option.splits)
  then show "fst (udev_list_entry_foreach h (e # rest) s) = fst (udev_list_entry_foreach h rest s)"
    by (simp add: foreach_result del: udev_list_entry_foreach.simps)
  assume a: "enumeration_ok h \<and> udev_enumerate_get_list_entry h = pre @ e # q # post \<and>
          (\<forall>x\<in>set pre. \<not> qualifies h x) \<and> qualifies h q"
  with nq have "\<forall>x\<in>set (pre @ [e]). \<not> qualifies h x" by simp
  with a have "find (qualifies h) ((pre @ [e]) @ q # post) = Some q"
    by (intro find_first) simp_all
  with a show "fst (detectDrmDevice h s) = Inr (entry_devnode h q)"
    by (simp add: detect_result)
qed

theorem open_failure_skips_candidate_witness:
  "unopenable example_host (Some ''/sys/card0'') \<and>
   qualifies example_host (Some ''/sys/card1'') \<and>
   \<not> qualifies example_host None \<and>
   \<not> qualifies example_host (Some ''/sys/gone'') \<and>
   fst (udev_list_entry_foreach example_host [Some ''/sys/card0'', Some ''/sys/card1''] stdio_open) =
     Some (Inr ''/dev/dri/card1'') \<and>
   fst (detectDrmDevice example_host stdio_open) = Inr ''/dev/dri/card1''"
proof -
  have u: "unopenable example_host (Some ''/sys/card0'')"
    by (simp add: host_defs probe_defs unopenable_def atoi_0)
  have q: "qualifies example_host (Some ''/sys/card1'')"
    "\<not> qualifies example_host None" "\<not> qualifies example_host (Some ''/sys/gone'')"
    "entry_devnode example_host (Some ''/sys/card1'') = ''/dev/dri/card1''"
    by (simp_all add: host_defs probe_defs atoi_1)
  have ok: "enumeration_ok example_host"
    by (simp add: host_defs enumeration_ok_def)
  have es: "udev_enumerate_get_list_entry example_host =
     [None, Some ''/sys/gone''] @ Some ''/sys/card0'' # Some ''/sys/card1'' # []"
    by (simp add: host_defs)
  have r: "fst (udev_list_entry_foreach example_host [Some ''/sys/card1''] stdio_open) =
     Some (Inr ''/dev/dri/card1'')"
    by (simp add: host_defs run_defs atoi_1)
  note t = open_failure_skips_candidate [OF u, of "[Some ''/sys/card1'']" stdio_open
      "[None, Some ''/sys/gone'']" "Some ''/sys/card1''" "[]"]
  from t [THEN conjunct2, THEN conjunct1] r
  have "fst (udev_list_entry_foreach example_host
      [Some ''/sys/card0'', Some ''/sys/card1''] stdio_open) = Some (Inr ''/dev/dri/card1'')"
    by (simp del: udev_list_entry_foreach.simps)
  moreover from t [THEN conjunct2, THEN conjunct2] ok es q have "fst (detectDrmDevice example_host stdio_open) = Inr ''/dev/dri/card1''"
    by (simp del: udev_list_entry_foreach.simps)
  ultimately show ?thesis using u q by simp
qed

subsection \<open>C4: validation before the open step\<close>

text \<open>
  C4. \<open>isDrmDevice\<close> returns false, without calling \<open>open\<close> and without any other effect,
  for every device that has no device-node path, has no sysnum string, or whose sysnum
  parses (by \<open>atoi\<close>) to a negative number. It calls \<open>open\<close> exactly for the devices that
  have a device-node path and a sysnum that parses to a non-negative number.
\<close>

theorem isDrmDevice_validation:
  "(udev_device_get_devnode d = None \<or> udev_device_get_sysnum d = None \<or>
    (\<exists>n. udev_device_get_sysnum d = Some n \<and> atoi n < 0) \<longrightarrow>
      isDrmDevice h d s = (False, s)) \<and>
   (open_calls (snd (isDrmDevice h d s)) \<noteq> open_calls s \<longleftrightarrow>
      (\<exists>f n. udev_device_get_devnode d = Some f \<and> udev_device_get_sysnum d = Some n \<and>
             0 \<le> atoi n))"
proof (intro conjI impI)
  assume "udev_device_get_devnode d = None \<or> udev_device_get_sysnum d = None \<or>
    (\<exists>n. udev_device_get_sysnum d = Some n \<and> atoi n < 0)"
  then have "\<not> valid_candidate d"
    by (auto simp: valid_candidate_def split: option.splits)
  then show "isDrmDevice h d s = (False, s)"
    by (rule isDrmDevice_invalid)
next
  have "open_calls (snd (isDrmDevice h d s)) \<noteq> open_calls s \<longleftrightarrow> valid_candidate d"
    by (simp add: isDrmDevice_open_calls)
  then show "open_calls (snd (isDrmDevice h d s)) \<noteq> open_calls s \<longleftrightarrow>
      (\<exists>f n. udev_device_get_devnode d = Some f \<and> udev_device_get_sysnum d = Some n \<and>
             0 \<le> atoi n)"
    by (simp only: valid_candidate_iff)
qed

theorem isDrmDevice_validation_witness:
  "isDrmDevice example_host no_devnode stdio_open = (False, stdio_open) \<and>
   isDrmDevice example_host no_sysnum stdio_open = (False, stdio_open) \<and>
   atoi ''-1'' < 0 \<and>
   isDrmDevice example_host negative_sysnum stdio_open = (False, stdio_open) \<and>
   0 \<le> atoi ''1'' \<and>
   open_calls (snd (isDrmDevice example_host card1 stdio_open)) \<noteq> open_calls stdio_open"
proof -
  have a: "udev_device_get_devnode no_devnode = None"
    and b: "udev_device_get_sysnum no_sysnum = None"
    and c: "udev_device_get_sysnum negative_sysnum = Some ''-1''"
    and d: "udev_device_get_devnode card1 = Some ''/dev/dri/card1''"
      "udev_device_get_sysnum card1 = Some ''1''"
    by (simp_all add: host_defs no_devnode_def no_sysnum_def negative_sysnum_def)
  from isDrmDevice_validation [of no_devnode example_host stdio_open] a
  have 1: "isDrmDevice example_host no_devnode stdio_open = (False, stdio_open)" by simp
  from isDrmDevice_validation [of no_sysnum example_host stdio_open] b
  have 2: "isDrmDevice example_host no_sysnum stdio_open = (False, stdio_open)" by simp
  from isDrmDevice_validation [of negative_sysnum example_host stdio_open] c
  have 3: "isDrmDevice example_host negative_sysnum stdio_open = (False, stdio_open)"
    by (simp add: atoi_neg1)
  from isDrmDevice_validation [of card1 example_host stdio_open] d
  have 4: "open_calls (snd (isDrmDevice example_host card1 stdio_open)) \<noteq> open_calls stdio_open"
    by (simp add: atoi_1)
  from 1 2 3 4 show ?thesis by (simp add: atoi_neg1 atoi_1)
qed

subsection \<open>C5: descriptors of rejected candidates\<close>

text \<open>
  C5 asks that no rejected candidate leaves an open descriptor behind. The guard closes
  only descriptors greater than 0, while the probe takes every descriptor from 0 on as
  opened. In a process started with descriptor 0 closed, \<open>open\<close> returns 0: the render-only
  node \<open>card1\<close> of \<open>headless_host\<close> is rejected and descriptor 0 stays open on it.
\<close>

theorem rejected_candidate_leaves_fd_0_open:
  "isDrmDevice headless_host card1 stdin_closed =
     (False, \<lparr>fd_table = [(0, ''/dev/dri/card1'')],
              open_calls = [(''/dev/dri/card1'', O_RDWR OR O_CLOEXEC)]\<rparr>)"
  by (simp add: host_defs headless_host_def stdin_closed_def run_defs atoi_1)

subsection \<open>C6: the flags of the open call\<close>

text \<open>
  C6, as amended. For every device that passes validation, \<open>isDrmDevice\<close> makes exactly one
  call to \<open>open\<close>, on the device-node path, with the flags \<open>O_RDWR | O_CLOEXEC\<close>:
  read-write and close-on-exec. The non-blocking flag is not among them.
\<close>

theorem isDrmDevice_open_flags:
  assumes "udev_device_get_devnode d = Some filename"
    and "udev_device_get_sysnum d = Some n"
    and "0 \<le> atoi n"
  shows "open_calls (snd (isDrmDevice h d s)) = open_calls s @ [(filename, O_RDWR OR O_CLOEXEC)] \<and>
         (O_RDWR OR O_CLOEXEC) AND O_NONBLOCK = 0"
proof -
  from assms have "valid_candidate d" "device_devnode d = filename"
    by (simp_all add: valid_candidate_def device_devnode_def)
  then show ?thesis
    by (simp add: isDrmDevice_open_calls O_RDWR_def O_CLOEXEC_def O_NONBLOCK_def)
qed

theorem isDrmDevice_open_flags_witness:
  "udev_device_get_devnode card1 = Some ''/dev/dri/card1'' \<and>
   udev_device_get_sysnum card1 = Some ''1'' \<and>
   0 \<le> atoi ''1'' \<and>
   open_calls (snd (isDrmDevice example_host card1 stdio_open)) =
     [(''/dev/dri/card1'', O_RDWR OR O_CLOEXEC)]"
proof -
  have d: "udev_device_get_devnode card1 = Some ''/dev/dri/card1''"
    and n: "udev_device_get_sysnum card1 = Some ''1''"
    and a: "0 \<le> atoi ''1''"
    by (simp_all add: host_defs atoi_1)
  from isDrmDevice_open_flags [OF d n a, of example_host stdio_open] d n a
  show ?thesis by (simp add: stdio_open_def)
qed


text \<open>
  C6 as stated (read-write, non-blocking and close-on-exec) fails: the call made for
  \<open>card1\<close> does not carry \<open>O_RDWR | O_NONBLOCK | O_CLOEXEC\<close>.
\<close>

theorem open_flags_nonblock_counterexample:
  "open_calls (snd (isDrmDevice example_host card1 stdio_open)) \<noteq>
     [(''/dev/dri/card1'', O_RDWR OR O_NONBLOCK OR O_CLOEXEC)]"
  by (simp add: host_defs run_defs atoi_1 O_RDWR_def O_CLOEXEC_def O_NONBLOCK_def)

subsection \<open>C7: the message of an Exception\<close>




subsection \<open>C9: descriptors after the detector returns\<close>

text \<open>
  C9 asks that every descriptor the detector opened is closed when it returns, the accepted
  candidate's included. In a process started with descriptor 0 closed, \<open>open\<close> returns 0 for
  \<open>card1\<close>, the candidate is accepted, the guard leaves descriptor 0 alone, and the detector
  returns the path with descriptor 0 still open on the device.
\<close>

theorem accepted_candidate_leaves_fd_0_open:
  "detectDrmDevice example_host stdin_closed =
     (Inr ''/dev/dri/card1'',
      \<lparr>fd_table = [(0, ''/dev/dri/card1'')],
       open_calls = [(''/dev/dri/card0'', O_RDWR OR O_CLOEXEC),
                     (''/dev/dri/card1'', O_RDWR OR O_CLOEXEC)]\<rparr>)"
  by (simp add: host_defs stdin_closed_def run_defs atoi_0 atoi_1)

subsection \<open>C10: entries without a name or a device object\<close>

text \<open>
  C10. An enumerated entry whose name is NULL, or for which no device object can be built,
  is skipped with no effect at all: the loop goes on with the rest of the list in the same
  state. So \<open>detectDrmDevice\<close> gives the same result and the same final state as on the
  enumeration with all such entries removed, and it never returns an exception.
\<close>

theorem skipped_entries_have_no_effect:
  "(e = None \<or> (\<exists>path. e = Some path \<and> udev_device_new_from_syspath h path = None) \<longrightarrow>
      udev_list_entry_foreach h (e # rest) s = udev_list_entry_foreach h rest s) \<and>
   detectDrmDevice h s =
     detectDrmDevice
       (h\<lparr>udev_enumerate_get_list_entry :=
            filter (\<lambda>e. \<not> silently_skipped h e) (udev_enumerate_get_list_entry h)\<rparr>) s \<and>
   (\<exists>path. fst (detectDrmDevice h s) = Inr path)"
proof (intro conjI impI)
  assume "e = None \<or> (\<exists>path. e = Some path \<and> udev_device_new_from_syspath h path = None)"
  then have "silently_skipped h e"
    by (auto simp: silently_skipped_def)
  then show "udev_list_entry_foreach h (e # rest) s = udev_list_entry_foreach h rest s"
    by (rule foreach_skip)
next
  show "detectDrmDevice h s =
     detectDrmDevice
       (h\<lparr>udev_enumerate_get_list_entry :=
            filter (\<lambda>e. \<not> silently_skipped h e) (udev_enumerate_get_list_entry h)\<rparr>) s"
    by (rule detect_filter)
next
  show "\<exists>path. fst (detectDrmDevice h s) = Inr path"
    by (simp add: detect_result)
qed

theorem skipped_entries_have_no_effect_witness:
  "udev_device_new_from_syspath example_host ''/sys/gone'' = None \<and>
   udev_list_entry_foreach example_host
     [None, Some ''/sys/gone'', Some ''/sys/card0'', Some ''/sys/card1''] stdio_open =
   udev_list_entry_foreach example_host [Some ''/sys/card0'', Some ''/sys/card1''] stdio_open \<and>
   detectDrmDevice example_host stdio_open =
   detectDrmDevice
     (example_host\<lparr>udev_enumerate_get_list_entry := [Some ''/sys/card0'', Some ''/sys/card1'']\<rparr>)
     stdio_open"
proof -
  have g: "udev_device_new_from_syspath example_host ''/sys/gone'' = None"
    by (simp add: host_defs)
  have f: "filter (\<lambda>e. \<not> silently_skipped example_host e)
      (udev_enumerate_get_list_entry example_host) = [Some ''/sys/card0'', Some ''/sys/card1'']"
    by (simp add: host_defs silently_skipped_def)
  from skipped_entries_have_no_effect [of None example_host
      "[Some ''/sys/gone'', Some ''/sys/card0'', Some ''/sys/card1'']" stdio_open]
  have 1: "udev_list_entry_foreach example_host
     [None, Some ''/sys/gone'', Some ''/sys/card0'', Some ''/sys/card1''] stdio_open =
     udev_list_entry_foreach example_host
     [Some ''/sys/gone'', Some ''/sys/card0'', Some ''/sys/card1''] stdio_open"
    by (simp del: udev_list_entry_foreach.simps)
  from skipped_entries_have_no_effect [of "Some ''/sys/gone''" example_host
      "[Some ''/sys/card0'', Some ''/sys/card1'']" stdio_open] g
  have 2: "udev_list_entry_foreach example_host
     [Some ''/sys/gone'', Some ''/sys/card0'', Some ''/sys/card1''] stdio_open =
     udev_list_entry_foreach example_host [Some ''/sys/card0'', Some ''/sys/card1''] stdio_open"
    by (simp del: udev_list_entry_foreach.simps)
  from skipped_entries_have_no_effect [of None example_host "[]" stdio_open] f
  have 3: "detectDrmDevice example_host stdio_open =
   detectDrmDevice
     (example_host\<lparr>udev_enumerate_get_list_entry := [Some ''/sys/card0'', Some ''/sys/card1'']\<rparr>)
     stdio_open"
    by (simp del: udev_list_entry_foreach.simps)
  from g 1 2 3 show ?thesis by (simp del: udev_list_entry_foreach.simps)
qed

end
